theory Spec2Isabelle
  imports Main
begin

section \<open>The owl-shop traffic simulation engine (pkg/shop/shop.go)\<close>

text \<open>
  The file embeds the three functions of \<^verbatim>\<open>shop.go\<close>: \<^verbatim>\<open>New\<close> (startup sequencing),
  \<^verbatim>\<open>Start\<close> (the rate-controlled dispatch loop) and \<^verbatim>\<open>SimulatePageImpression\<close> (one
  fire-and-forget dispatch). \<^verbatim>\<open>New\<close> is straight-line code with early returns: it is a
  function that returns the effects it performed, in order, and an error or a shop.
  \<^verbatim>\<open>Start\<close> runs next to the goroutines it launches: it is a step function on a
  process state, one step for each statement, driven by a schedule.
\<close>

subsection \<open>Values\<close>

text \<open>Instants and \<^verbatim>\<open>time.Duration\<close> count nanoseconds.\<close>

type_synonym time = int
type_synonym Duration = int

definition Second :: Duration where
  "Second = 1000000000"

definition Minute :: Duration where
  "Minute = 60 * Second"

text \<open>
  Go errors: \<open>Errorf m\<close> is \<^verbatim>\<open>fmt.Errorf(m)\<close> with no verb, \<open>Wrapf m e\<close> is
  \<^verbatim>\<open>fmt.Errorf(m + ": %w", e)\<close>, \<open>DeadlineExceeded\<close> is \<^verbatim>\<open>context.DeadlineExceeded\<close>.
\<close>

datatype error = Errorf string | Wrapf string error | DeadlineExceeded

text \<open>The four producers, in the order \<^verbatim>\<open>New\<close> declares them.\<close>

datatype service = CustomerSvc | AddressSvc | FrontendSvc | OrderSvc

fun serviceName :: "service \<Rightarrow> string" where
  "serviceName CustomerSvc = ''customer''"
| "serviceName AddressSvc = ''address''"
| "serviceName FrontendSvc = ''frontend''"
| "serviceName OrderSvc = ''order''"

definition declaredOrder :: "service list" where
  "declaredOrder = [CustomerSvc, AddressSvc, FrontendSvc, OrderSvc]"

datatype action =
  CreateFrontendEvent | CreateCustomer | CreateAddress | DeleteCustomer | ModifyCustomer
  | CreateOrder

text \<open>
  \<^verbatim>\<open>Choice.Item\<close> is an \<^verbatim>\<open>interface{}\<close>: \<open>Func svc m\<close> is the method value \<^verbatim>\<open>svc.m\<close> of
  type \<^verbatim>\<open>func()\<close>, \<open>NotFunc\<close> any value whose dynamic type is not \<^verbatim>\<open>func()\<close>.
\<close>

datatype item = Func service action | NotFunc

record Choice =
  Item :: item
  Weight :: int

text \<open>
  Modelled from the spec: the type \<^verbatim>\<open>weightedrand.Chooser\<close>, whose declaration is not
  under src/. The spec's Chooser holds the entries, the cumulative weights
  \<open>C[i] = sum(weight[0..i])\<close> and \<open>total = C[last]\<close>.
\<close>

record Chooser =
  entries :: "Choice list"
  cumulative :: "int list"
  total :: int

record ShopConfig =
  RequestRate :: int
  RequestRateInterval :: Duration

record Config =
  Shop :: ShopConfig

record Context =
  Deadline :: time

text \<open>\<^verbatim>\<open>context.WithTimeout(context.Background(), d)\<close> called at the instant \<open>now\<close>.\<close>

definition WithTimeout :: "time \<Rightarrow> Duration \<Rightarrow> Context" where
  "WithTimeout now d = \<lparr>Deadline = now + d\<rparr>"

text \<open>
  The struct \<^verbatim>\<open>Shop\<close>; the record is named \<open>ShopT\<close> because \<open>Shop\<close> is the field of the
  configuration. Its logger is not a field here: what is logged is an effect.
\<close>

record ShopT =
  cfg :: Config
  chooser :: Chooser
  customerSvc :: service

subsection \<open>The collaborators of shop.go\<close>

text \<open>
  What \<^verbatim>\<open>shop.go\<close> calls and does not define is a parameter: the outcome of the schema
  registry factory, of the four service constructors, of each \<^verbatim>\<open>Initialize(ctx)\<close> (called
  at an instant, it returns at a later one, with an error or none), of
  \<^verbatim>\<open>weightedrand.NewChooser\<close>, and \<^verbatim>\<open>Chooser.Pick\<close>, a function of the chooser and of the
  draw of the process-wide random source. \<open>Now\<close> is the instant at which
  \<^verbatim>\<open>context.WithTimeout\<close> reads the clock.
\<close>

record Env =
  NewSchemaRegistryClient :: "Config \<Rightarrow> error option"
  NewService :: "Config \<Rightarrow> service \<Rightarrow> error option"
  Now :: time
  Initialize :: "service \<Rightarrow> Context \<Rightarrow> time \<Rightarrow> time \<times> error option"
  NewChooser :: "Choice list \<Rightarrow> error + Chooser"
  Pick :: "Chooser \<Rightarrow> nat \<Rightarrow> item"

subsection \<open>New\<close>

text \<open>The goroutines the file launches with \<^verbatim>\<open>go\<close>.\<close>

datatype goroutine =
  SvcStart service
  | MetricsServer
  | PageImpression

text \<open>The effects of \<^verbatim>\<open>New\<close>, in the order it performs them.\<close>

datatype event =
  EvNewSchemaRegistryClient
  | EvNewService service
  | EvWithTimeout Duration
  | EvInitialize service Context "error option"
  | EvGo goroutine
  | EvNewChooser "Choice list"
  | EvCancel

text \<open>
  Lines 29 to 56: the schema registry client and the four services are constructed in
  turn; the first failure returns. The result is the effects performed and the error
  returned, if any. Line 35 formats a new error and drops the cause.
\<close>

definition New_construct :: "Env \<Rightarrow> Config \<Rightarrow> event list \<times> error option" where
  "New_construct env conf =
    (case NewSchemaRegistryClient env conf of
       Some err \<Rightarrow>
         ([EvNewSchemaRegistryClient],
          Some (Errorf ''failed to create schema registry client''))
     | None \<Rightarrow>
    (case NewService env conf CustomerSvc of
       Some err \<Rightarrow>
         ([EvNewSchemaRegistryClient, EvNewService CustomerSvc],
          Some (Wrapf ''failed to create customer service'' err))
     | None \<Rightarrow>
    (case NewService env conf AddressSvc of
       Some err \<Rightarrow>
         ([EvNewSchemaRegistryClient, EvNewService CustomerSvc, EvNewService AddressSvc],
          Some (Wrapf ''failed to create address service'' err))
     | None \<Rightarrow>
    (case NewService env conf FrontendSvc of
       Some err \<Rightarrow>
         ([EvNewSchemaRegistryClient, EvNewService CustomerSvc, EvNewService AddressSvc,
           EvNewService FrontendSvc],
          Some (Wrapf ''failed to create frontend service'' err))
     | None \<Rightarrow>
    (case NewService env conf OrderSvc of
       Some err \<Rightarrow>
         ([EvNewSchemaRegistryClient, EvNewService CustomerSvc, EvNewService AddressSvc,
           EvNewService FrontendSvc, EvNewService OrderSvc],
          Some (Wrapf ''failed to create order service'' err))
     | None \<Rightarrow>
         ([EvNewSchemaRegistryClient, EvNewService CustomerSvc, EvNewService AddressSvc,
           EvNewService FrontendSvc, EvNewService OrderSvc],
          None))))))"

text \<open>
  Lines 61 to 79: the four \<^verbatim>\<open>Initialize(ctx)\<close> calls, all with the context of line 58.
  The first call starts at \<open>t0\<close>, each later one at the instant the one before it
  returned.
\<close>

definition New_initialize :: "Env \<Rightarrow> Context \<Rightarrow> time \<Rightarrow> event list \<times> error option" where
  "New_initialize env ctx t0 =
    (case Initialize env CustomerSvc ctx t0 of (t1, r1) \<Rightarrow>
    (case r1 of
       Some err \<Rightarrow>
         ([EvInitialize CustomerSvc ctx r1],
          Some (Wrapf ''failed to initialize customer service'' err))
     | None \<Rightarrow>
    (case Initialize env AddressSvc ctx t1 of (t2, r2) \<Rightarrow>
    (case r2 of
       Some err \<Rightarrow>
         ([EvInitialize CustomerSvc ctx r1, EvInitialize AddressSvc ctx r2],
          Some (Wrapf ''failed to initialize address service'' err))
     | None \<Rightarrow>
    (case Initialize env FrontendSvc ctx t2 of (t3, r3) \<Rightarrow>
    (case r3 of
       Some err \<Rightarrow>
         ([EvInitialize CustomerSvc ctx r1, EvInitialize AddressSvc ctx r2,
           EvInitialize FrontendSvc ctx r3],
          Some (Wrapf ''failed to initialize frontend service'' err))
     | None \<Rightarrow>
    (case Initialize env OrderSvc ctx t3 of (t4, r4) \<Rightarrow>
    (case r4 of
       Some err \<Rightarrow>
         ([EvInitialize CustomerSvc ctx r1, EvInitialize AddressSvc ctx r2,
           EvInitialize FrontendSvc ctx r3, EvInitialize OrderSvc ctx r4],
          Some (Wrapf ''failed to initialize order service'' err))
     | None \<Rightarrow>
         ([EvInitialize CustomerSvc ctx r1, EvInitialize AddressSvc ctx r2,
           EvInitialize FrontendSvc ctx r3, EvInitialize OrderSvc ctx r4],
          None)))))))))"

text \<open>Lines 86 to 91: the choices handed to \<^verbatim>\<open>weightedrand.NewChooser\<close>.\<close>

definition choices :: "Choice list" where
  "choices =
    [\<lparr>Item = Func FrontendSvc CreateFrontendEvent, Weight = 1000\<rparr>,
     \<lparr>Item = Func CustomerSvc CreateCustomer, Weight = 50\<rparr>,
     \<lparr>Item = Func AddressSvc CreateAddress, Weight = 30\<rparr>,
     \<lparr>Item = Func CustomerSvc DeleteCustomer, Weight = 8\<rparr>,
     \<lparr>Item = Func CustomerSvc ModifyCustomer, Weight = 6\<rparr>,
     \<lparr>Item = Func OrderSvc CreateOrder, Weight = 5\<rparr>]"

text \<open>
  Lines 81 to 104: the two background goroutines are launched, then the chooser is
  built; its error returns, otherwise the shop does.
\<close>

definition New_finish :: "Env \<Rightarrow> Config \<Rightarrow> event list \<times> (error + ShopT)" where
  "New_finish env conf =
    (case NewChooser env choices of
       Inl err \<Rightarrow>
         ([EvGo (SvcStart AddressSvc), EvGo (SvcStart OrderSvc), EvNewChooser choices],
          Inl (Wrapf ''failed to create random chooser'' err))
     | Inr wr \<Rightarrow>
         ([EvGo (SvcStart AddressSvc), EvGo (SvcStart OrderSvc), EvNewChooser choices],
          Inr \<lparr>cfg = conf, chooser = wr, customerSvc = CustomerSvc\<rparr>))"

text \<open>
  Lines 28 to 105, whole. A return before line 58 has created no context; every return
  after line 59 runs the deferred \<^verbatim>\<open>cancel()\<close> last.
\<close>

definition New :: "Env \<Rightarrow> Config \<Rightarrow> event list \<times> (error + ShopT)" where
  "New env conf =
    (case New_construct env conf of (tr1, r1) \<Rightarrow>
    (case r1 of
       Some err \<Rightarrow> (tr1, Inl err)
     | None \<Rightarrow>
    (let ctx = WithTimeout (Now env) Minute in
    (case New_initialize env ctx (Now env) of (tr2, r2) \<Rightarrow>
    (case r2 of
       Some err \<Rightarrow> (tr1 @ [EvWithTimeout Minute] @ tr2 @ [EvCancel], Inl err)
     | None \<Rightarrow>
    (case New_finish env conf of (tr3, r3) \<Rightarrow>
       (tr1 @ [EvWithTimeout Minute] @ tr2 @ tr3 @ [EvCancel], r3)))))))"

subsection \<open>Start and SimulatePageImpression\<close>

text \<open>
  \<^verbatim>\<open>Start\<close> is one goroutine among those it launches, so it is embedded statement by
  statement. A control point of \<^verbatim>\<open>Start\<close> is named by its source line: \<open>L117 i\<close> is the
  test \<^verbatim>\<open>i < s.cfg.Shop.RequestRate\<close> of the inner loop with the current \<open>i\<close>, \<open>L118 i\<close>
  and \<open>L119 i\<close> are the two statements of its body, \<open>L121\<close> is the sleep. The outer
  \<^verbatim>\<open>for\<close> of line 116 has no condition and no \<^verbatim>\<open>break\<close>, and \<^verbatim>\<open>Start\<close> has no
  \<^verbatim>\<open>return\<close>: there is no control point after the loop.
\<close>

datatype pc = L110 | L111 | L117 int | L118 int | L119 int | L121

text \<open>
  A launched goroutine is at one of its own control points: \<open>M112\<close> is the metrics
  closure inside \<^verbatim>\<open>http.ListenAndServe\<close>, \<open>I130\<close> an impression closure that has not yet
  picked, \<open>I134 svc m\<close> one whose picked \<^verbatim>\<open>fn()\<close> is running (in flight), \<open>Done\<close> a
  closure that returned.
\<close>

datatype ustate = M112 | I130 | I134 service action | Done

text \<open>
  An action is a \<^verbatim>\<open>func()\<close>: it returns nothing, so whether it succeeded or failed inside
  is invisible to its caller. The outcome is kept in the log of the unit only.
\<close>

datatype outcome = Succeeded | Failed

datatype effect = Handle string | Go goroutine | Inc | Sleep Duration

datatype ueffect =
  Invoke service action
  | Returned service action outcome
  | LogInfo string error
  | LogFatal string
  | Exit int

text \<open>
  What a goroutine's next step receives from outside the file: the draw of the random
  source behind \<^verbatim>\<open>Pick\<close>, the outcome of the running action, or the error with which
  \<^verbatim>\<open>ListenAndServe\<close> returns.
\<close>

datatype input = Rand nat | Outcome outcome | ServeErr error

text \<open>
  The process: the counter \<^verbatim>\<open>pageImpressionsSimulated\<close>, the control point and the effects
  of \<^verbatim>\<open>Start\<close>, the goroutines launched so far in launch order, their effects tagged with
  the goroutine's index, and whether \<^verbatim>\<open>os.Exit\<close> has been called.
\<close>

record Process =
  pageImpressionsSimulated :: nat
  mainPc :: pc
  mainTrace :: "effect list"
  units :: "ustate list"
  unitTrace :: "(nat \<times> ueffect) list"
  exited :: bool

text \<open>
  Lines 127 to 136, the caller's side: the body is a single \<^verbatim>\<open>go\<close> statement, which
  launches the closure and returns.
\<close>

definition SimulatePageImpression :: "Process \<Rightarrow> Process" where
  "SimulatePageImpression P =
     P\<lparr>units := units P @ [I130], mainTrace := mainTrace P @ [Go PageImpression]\<rparr>"

text \<open>Lines 109 to 123: one statement of \<^verbatim>\<open>Start\<close>.\<close>

definition main_step :: "ShopT \<Rightarrow> Process \<Rightarrow> Process" where
  "main_step s P =
    (case mainPc P of
       L110 \<Rightarrow> P\<lparr>mainTrace := mainTrace P @ [Handle ''/metrics''], mainPc := L111\<rparr>
     | L111 \<Rightarrow>
         P\<lparr>units := units P @ [M112], mainTrace := mainTrace P @ [Go MetricsServer],
           mainPc := L117 0\<rparr>
     | L117 i \<Rightarrow>
         (if i < RequestRate (Shop (cfg s)) then P\<lparr>mainPc := L118 i\<rparr>
          else P\<lparr>mainPc := L121\<rparr>)
     | L118 i \<Rightarrow>
         P\<lparr>pageImpressionsSimulated := pageImpressionsSimulated P + 1,
           mainTrace := mainTrace P @ [Inc], mainPc := L119 i\<rparr>
     | L119 i \<Rightarrow> (SimulatePageImpression P)\<lparr>mainPc := L117 (i + 1)\<rparr>
     | L121 \<Rightarrow>
         P\<lparr>mainTrace := mainTrace P @ [Sleep (RequestRateInterval (Shop (cfg s)))],
           mainPc := L117 0\<rparr>)"

text \<open>
  Lines 111 to 114 and 129 to 135: one step of the launched goroutine \<open>n\<close>.
  \<^verbatim>\<open>logger.Fatal\<close> writes the entry and calls \<^verbatim>\<open>os.Exit(1)\<close>, so line 134 is not reached
  after it. An input that does not fit the control point leaves the process as it is.
\<close>

definition unit_step :: "Env \<Rightarrow> ShopT \<Rightarrow> nat \<Rightarrow> input \<Rightarrow> Process \<Rightarrow> Process" where
  "unit_step env s n inp P =
    (if length (units P) \<le> n then P
     else
      (case (units P ! n, inp) of
         (M112, ServeErr err) \<Rightarrow>
           P\<lparr>units := (units P)[n := Done],
             unitTrace := unitTrace P @ [(n, LogInfo ''prometheus http handler quit'' err)]\<rparr>
       | (I130, Rand r) \<Rightarrow>
           (case Pick env (chooser s) r of
              Func svc m \<Rightarrow>
                P\<lparr>units := (units P)[n := I134 svc m],
                  unitTrace := unitTrace P @ [(n, Invoke svc m)]\<rparr>
            | NotFunc \<Rightarrow>
                P\<lparr>unitTrace := unitTrace P @
                    [(n, LogFatal ''randomly picked method is not a func''), (n, Exit 1)],
                  exited := True\<rparr>)
       | (I134 svc m, Outcome out) \<Rightarrow>
           P\<lparr>units := (units P)[n := Done],
             unitTrace := unitTrace P @ [(n, Returned svc m out)]\<rparr>
       | _ \<Rightarrow> P))"

text \<open>
  The Go scheduler: at every step it runs either the next statement of \<^verbatim>\<open>Start\<close> or the
  next step of one launched goroutine. Nothing runs once the process has exited.
\<close>

datatype sched = RunMain | RunUnit nat input

definition step :: "Env \<Rightarrow> ShopT \<Rightarrow> sched \<Rightarrow> Process \<Rightarrow> Process" where
  "step env s c P =
    (if exited P then P
     else (case c of RunMain \<Rightarrow> main_step s P | RunUnit n inp \<Rightarrow> unit_step env s n inp P))"

fun run :: "Env \<Rightarrow> ShopT \<Rightarrow> sched list \<Rightarrow> Process \<Rightarrow> Process" where
  "run env s [] P = P"
| "run env s (c # cs) P = run env s cs (step env s c P)"

text \<open>
  \<^verbatim>\<open>Start\<close> run on its own until it returns: the result is the process at the return,
  and \<open>None\<close> when there is no return.
\<close>

partial_function (option) Start :: "ShopT \<Rightarrow> Process \<Rightarrow> Process option" where
  "Start s P = Start s (main_step s P)"

text \<open>The process when \<^verbatim>\<open>Start\<close> is called: nothing counted, nothing launched.\<close>

definition atStart :: Process where
  "atStart =
     \<lparr>pageImpressionsSimulated = 0, mainPc = L110, mainTrace = [], units = [],
      unitTrace = [], exited = False\<rparr>"

text \<open>
  The number of statements \<^verbatim>\<open>Start\<close> runs in one tick (the test, line 118 and line 119
  for each iteration, then the failing test and the sleep), and the effects of a tick.
\<close>

definition tickSteps :: "ShopT \<Rightarrow> nat" where
  "tickSteps s = 3 * nat (RequestRate (Shop (cfg s))) + 2"

definition tickTrace :: "ShopT \<Rightarrow> effect list" where
  "tickTrace s =
     concat (replicate (nat (RequestRate (Shop (cfg s)))) [Inc, Go PageImpression])
     @ [Sleep (RequestRateInterval (Shop (cfg s)))]"

text \<open>The impressions \<^verbatim>\<open>Start\<close> has issued, and the launched goroutines still running.\<close>

definition issued :: "Process \<Rightarrow> nat" where
  "issued P = length (filter (\<lambda>e. e = Go PageImpression) (mainTrace P))"

definition outstanding :: "Process \<Rightarrow> nat" where
  "outstanding P = length (filter (\<lambda>u. u \<noteq> Done) (units P))"

subsection \<open>The chooser and the producers, from the spec\<close>

text \<open>
  Modelled from the spec: \<^verbatim>\<open>weightedrand.NewChooser\<close>, not under src/. The spec builds
  the cumulative weights of a non-empty sequence of entries with positive weights, and
  makes zero entries or a non-positive weight a construction-time error.
\<close>

fun runningTotals :: "int \<Rightarrow> int list \<Rightarrow> int list" where
  "runningTotals acc [] = []"
| "runningTotals acc (w # ws) = (acc + w) # runningTotals (acc + w) ws"

definition NewChooser_spec :: "Choice list \<Rightarrow> error + Chooser" where
  "NewChooser_spec cs =
    (if cs = [] then Inl (Errorf ''no choices'')
     else if list_ex (\<lambda>c. Weight c \<le> 0) cs then Inl (Errorf ''non-positive weight'')
     else Inr \<lparr>entries = cs,
               cumulative = runningTotals 0 (map Weight cs),
               total = last (runningTotals 0 (map Weight cs))\<rparr>)"

text \<open>
  Modelled from the spec: \<^verbatim>\<open>Chooser.Pick\<close>, not under src/. With the draw \<open>r\<close> in
  \<open>[0, total)\<close>, the spec locates the smallest index \<open>i\<close> such that \<open>C[i] > r\<close> and
  returns the action of entry \<open>i\<close>. \<open>None\<close> is an index outside the entries.
\<close>

definition searchIndex :: "int list \<Rightarrow> int \<Rightarrow> nat" where
  "searchIndex C r = length (takeWhile (\<lambda>c. \<not> c > r) C)"

definition Pick_spec :: "Chooser \<Rightarrow> nat \<Rightarrow> item option" where
  "Pick_spec ch r =
    (let i = searchIndex (cumulative ch) (int r)
     in if i < length (entries ch) then Some (Item (entries ch ! i)) else None)"

text \<open>
  Modelled from the spec: a producer's \<^verbatim>\<open>Initialize(ctx)\<close>, not under src/. The spec's
  \<open>initialize(deadline)\<close> is synchronous and returns success or a failure with a cause; a
  producer that needs \<open>need svc\<close> to finish succeeds when that ends by the deadline, and
  fails with the deadline-exceeded cause at the deadline otherwise.
\<close>

definition Initialize_spec ::
  "(service \<Rightarrow> Duration) \<Rightarrow> service \<Rightarrow> Context \<Rightarrow> time \<Rightarrow> time \<times> error option" where
  "Initialize_spec need svc ctx t =
    (if t + need svc \<le> Deadline ctx then (t + need svc, None)
     else (max t (Deadline ctx), Some DeadlineExceeded))"

text \<open>Projections of the effects of \<^verbatim>\<open>New\<close>.\<close>

fun initialized :: "event list \<Rightarrow> service list" where
  "initialized [] = []"
| "initialized (EvInitialize svc ctx r # es) = svc # initialized es"
| "initialized (e # es) = initialized es"

fun contexts :: "event list \<Rightarrow> Context list" where
  "contexts [] = []"
| "contexts (EvInitialize svc ctx r # es) = ctx # contexts es"
| "contexts (e # es) = contexts es"

fun launched :: "event list \<Rightarrow> goroutine list" where
  "launched [] = []"
| "launched (EvGo g # es) = g # launched es"
| "launched (e # es) = launched es"

fun isNewChooser :: "event \<Rightarrow> bool" where
  "isNewChooser (EvNewChooser t) = True"
| "isNewChooser e = False"

text \<open>What \<^verbatim>\<open>Start\<close> itself has done: the counter, its control point and its effects.\<close>

definition mainView :: "Process \<Rightarrow> nat \<times> pc \<times> effect list" where
  "mainView P = (pageImpressionsSimulated P, mainPc P, mainTrace P)"

subsection \<open>Sample configurations and collaborators\<close>

definition conf0 :: Config where
  "conf0 = \<lparr>Shop = \<lparr>RequestRate = 3, RequestRateInterval = Second\<rparr>\<rparr>"

text \<open>Every collaborator succeeds; each \<^verbatim>\<open>Initialize\<close> needs one second.\<close>

definition envOk :: Env where
  "envOk =
     \<lparr>NewSchemaRegistryClient = (\<lambda>c. None), NewService = (\<lambda>c svc. None), Now = 0,
      Initialize = Initialize_spec (\<lambda>svc. Second), NewChooser = NewChooser_spec,
      Pick = (\<lambda>ch r. case Pick_spec ch r of Some f \<Rightarrow> f | None \<Rightarrow> NotFunc)\<rparr>"

text \<open>The chooser's constructor rejects the table.\<close>

definition envFail :: Env where
  "envFail = envOk\<lparr>NewChooser := (\<lambda>cs. Inl (Errorf ''bad table''))\<rparr>"

text \<open>Each \<^verbatim>\<open>Initialize\<close> needs twenty seconds.\<close>

definition envSlow :: Env where
  "envSlow = envOk\<lparr>Initialize := Initialize_spec (\<lambda>svc. 20 * Second)\<rparr>"

text \<open>The address service cannot be initialized.\<close>

definition envNoBroker :: Env where
  "envNoBroker =
     envOk\<lparr>Initialize := (\<lambda>svc ctx t.
       if svc = AddressSvc then (t, Some (Errorf ''no broker'')) else (t, None))\<rparr>"

text \<open>
  The shop \<^verbatim>\<open>New\<close> returns with these, and a schedule of one full interval in which
  the launched goroutines run between the statements of \<^verbatim>\<open>Start\<close>.
\<close>

definition shop0 :: ShopT where
  "shop0 =
     \<lparr>cfg = conf0,
      chooser = \<lparr>entries = choices, cumulative = [1000, 1050, 1080, 1088, 1094, 1099],
                 total = 1099\<rparr>,
      customerSvc = CustomerSvc\<rparr>"

definition sched0 :: "sched list" where
  "sched0 =
     [RunMain, RunMain,
      RunMain, RunMain, RunMain,
      RunUnit 1 (Rand 5),
      RunMain, RunMain, RunMain,
      RunUnit 1 (Outcome Failed),
      RunUnit 0 (ServeErr (Errorf ''address already in use'')),
      RunMain, RunMain, RunMain,
      RunUnit 2 (Rand 1060),
      RunMain, RunMain]"

text \<open>A chooser whose pick is not a \<^verbatim>\<open>func()\<close> for draws from 1000 on.\<close>

definition envBad :: Env where
  "envBad =
     envOk\<lparr>Pick := (\<lambda>ch r.
       if r < 1000 then Func FrontendSvc CreateFrontendEvent else NotFunc)\<rparr>"

section \<open>Properties of New\<close>

lemma New_construct_initialized [simp]:
  "initialized (fst (New_construct env conf)) = []"
  "launched (fst (New_construct env conf)) = []"
  "contexts (fst (New_construct env conf)) = []"
  "EvInitialize svc ctx r \<notin> set (fst (New_construct env conf))"
  "EvNewChooser t \<notin> set (fst (New_construct env conf))"
  "EvWithTimeout d \<notin> set (fst (New_construct env conf))"
  "list_ex isNewChooser (fst (New_construct env conf)) = False"
  "takeWhile (\<lambda>e. \<not> isNewChooser e) (fst (New_construct env conf)) = fst (New_construct env conf)"
  by (simp_all add: New_construct_def split: option.splits)

lemma initialized_append [simp]: "initialized (xs @ ys) = initialized xs @ initialized ys"
  by (induction xs rule: initialized.induct) simp_all

lemma launched_append [simp]: "launched (xs @ ys) = launched xs @ launched ys"
  by (induction xs rule: launched.induct) simp_all

lemma contexts_append [simp]: "contexts (xs @ ys) = contexts xs @ contexts ys"
  by (induction xs rule: contexts.induct) simp_all

lemma New_initialize_fail:
  assumes "EvInitialize svc c (Some cause) \<in> set (fst (New_initialize env ctx t0))"
  shows "snd (New_initialize env ctx t0) =
           Some (Wrapf (''failed to initialize '' @ serviceName svc @ '' service'') cause)
         \<and> initialized (fst (New_initialize env ctx t0)) =
             takeWhile (\<lambda>p. p \<noteq> svc) declaredOrder @ [svc]"
  using assms
  by (auto simp: New_initialize_def declaredOrder_def split: prod.splits option.splits)

lemma New_initialize_plain [simp]:
  "launched (fst (New_initialize env ctx t0)) = []"
  "EvNewChooser t \<notin> set (fst (New_initialize env ctx t0))"
  "EvWithTimeout d \<notin> set (fst (New_initialize env ctx t0))"
  "list_ex isNewChooser (fst (New_initialize env ctx t0)) = False"
  "takeWhile (\<lambda>e. \<not> isNewChooser e) (fst (New_initialize env ctx t0)) = fst (New_initialize env ctx t0)"
  by (simp_all add: New_initialize_def split: prod.splits option.splits)

lemma New_initialize_contexts:
  "contexts (fst (New_initialize env ctx t0)) =
     replicate (length (initialized (fst (New_initialize env ctx t0)))) ctx
   \<and> initialized (fst (New_initialize env ctx t0)) =
       take (length (initialized (fst (New_initialize env ctx t0)))) declaredOrder
   \<and> (snd (New_initialize env ctx t0) = None \<longrightarrow>
        initialized (fst (New_initialize env ctx t0)) = declaredOrder)"
  by (simp add: New_initialize_def declaredOrder_def split: prod.splits option.splits)

lemma New_finish_plain [simp]:
  "EvInitialize svc ctx r \<notin> set (fst (New_finish env conf))"
  "EvWithTimeout d \<notin> set (fst (New_finish env conf))"
  "initialized (fst (New_finish env conf)) = []"
  "contexts (fst (New_finish env conf)) = []"
  "fst (New_finish env conf) =
     [EvGo (SvcStart AddressSvc), EvGo (SvcStart OrderSvc), EvNewChooser choices]"
  by (simp_all add: New_finish_def split: sum.splits)

lemma New_finish_result:
  "snd (New_finish env conf) =
     (case NewChooser env choices of
        Inl err \<Rightarrow> Inl (Wrapf ''failed to create random chooser'' err)
      | Inr wr \<Rightarrow> Inr \<lparr>cfg = conf, chooser = wr, customerSvc = CustomerSvc\<rparr>)"
  by (simp add: New_finish_def split: sum.splits)

lemma New_unfold:
  "New env conf =
    (case snd (New_construct env conf) of
       Some err \<Rightarrow> (fst (New_construct env conf), Inl err)
     | None \<Rightarrow>
      (case snd (New_initialize env (WithTimeout (Now env) Minute) (Now env)) of
         Some err \<Rightarrow>
           (fst (New_construct env conf) @ [EvWithTimeout Minute]
              @ fst (New_initialize env (WithTimeout (Now env) Minute) (Now env))
              @ [EvCancel], Inl err)
       | None \<Rightarrow>
           (fst (New_construct env conf) @ [EvWithTimeout Minute]
              @ fst (New_initialize env (WithTimeout (Now env) Minute) (Now env))
              @ fst (New_finish env conf) @ [EvCancel], snd (New_finish env conf))))"
  by (cases "New_construct env conf";
      cases "New_initialize env (WithTimeout (Now env) Minute) (Now env)";
      cases "New_finish env conf")
     (simp add: New_def Let_def split: option.splits)

text \<open>
  C3. Whenever an \<^verbatim>\<open>Initialize\<close> call of \<^verbatim>\<open>New\<close> returns an error \<open>cause\<close> for the producer
  \<open>svc\<close>, \<^verbatim>\<open>New\<close> returns the error "failed to initialize \<open>svc\<close> service" wrapping that
  cause and no shop (so there is no receiver on which \<^verbatim>\<open>Start\<close> could run); the
  producers initialized are those declared before \<open>svc\<close> and \<open>svc\<close> itself, none after
  it; no goroutine was launched and the chooser was not constructed.
\<close>

theorem New_initialize_failure_aborts:
  assumes "EvInitialize svc c (Some cause) \<in> set (fst (New env conf))"
  shows "snd (New env conf) =
           Inl (Wrapf (''failed to initialize '' @ serviceName svc @ '' service'') cause)
         \<and> initialized (fst (New env conf)) =
             takeWhile (\<lambda>p. p \<noteq> svc) declaredOrder @ [svc]
         \<and> launched (fst (New env conf)) = []
         \<and> \<not> list_ex isNewChooser (fst (New env conf))"
proof -
  let ?ctx = "WithTimeout (Now env) Minute"
  from assms have r1: "snd (New_construct env conf) = None"
    by (auto simp: New_unfold split: option.splits)
  from assms r1
  have mem: "EvInitialize svc c (Some cause) \<in> set (fst (New_initialize env ?ctx (Now env)))"
    by (auto simp: New_unfold split: option.splits)
  from New_initialize_fail [OF mem] r1 show ?thesis
    by (simp add: New_unfold)
qed

theorem New_initialize_failure_aborts_witness:
  "EvInitialize AddressSvc (WithTimeout 0 Minute) (Some (Errorf ''no broker''))
     \<in> set (fst (New envNoBroker conf0))
   \<and> snd (New envNoBroker conf0)
       = Inl (Wrapf ''failed to initialize address service'' (Errorf ''no broker''))
   \<and> initialized (fst (New envNoBroker conf0)) = [CustomerSvc, AddressSvc]
   \<and> launched (fst (New envNoBroker conf0)) = []"
  using New_initialize_failure_aborts
    [of AddressSvc "WithTimeout 0 Minute" "Errorf ''no broker''" envNoBroker conf0]
  by (simp add: New_def New_construct_def New_initialize_def envNoBroker_def envOk_def
      declaredOrder_def Let_def)

lemma New_initialize_deadline:
  assumes "Initialize env = Initialize_spec need"
    and "d < need CustomerSvc + need AddressSvc + need FrontendSvc + need OrderSvc"
  shows "\<exists>svc \<in> set declaredOrder.
           snd (New_initialize env (WithTimeout t0 d) t0) =
             Some (Wrapf (''failed to initialize '' @ serviceName svc @ '' service'')
                     DeadlineExceeded)"
  using assms
  by (auto simp: New_initialize_def Initialize_spec_def WithTimeout_def declaredOrder_def
           split: prod.splits option.splits if_splits)

text \<open>
  C4. Every \<^verbatim>\<open>Initialize\<close> call of \<^verbatim>\<open>New\<close> receives the one context made by the single
  \<^verbatim>\<open>WithTimeout\<close> of line 58; the producers initialized are an initial segment of the
  declared order (customer, address, frontend, order), the whole of it when a shop is
  returned. With producers that honour the context as the spec describes and
  together need more than the minute, \<^verbatim>\<open>New\<close> fails with an error wrapping the
  deadline-exceeded cause, although each might finish within a minute of its own.
\<close>

theorem New_shared_deadline:
  "contexts (fst (New env conf)) =
      replicate (length (initialized (fst (New env conf)))) (WithTimeout (Now env) Minute)
   \<and> initialized (fst (New env conf)) =
       take (length (initialized (fst (New env conf)))) declaredOrder
   \<and> length (filter (\<lambda>e. e = EvWithTimeout Minute) (fst (New env conf))) \<le> 1
   \<and> (\<forall>sh. snd (New env conf) = Inr sh \<longrightarrow> initialized (fst (New env conf)) = declaredOrder)
   \<and> (snd (New_construct env conf) = None \<and> Initialize env = Initialize_spec need
        \<and> Minute < need CustomerSvc + need AddressSvc + need FrontendSvc + need OrderSvc
      \<longrightarrow> (\<exists>svc \<in> set declaredOrder.
             snd (New env conf) =
               Inl (Wrapf (''failed to initialize '' @ serviceName svc @ '' service'')
                      DeadlineExceeded)))"
proof -
  let ?ctx = "WithTimeout (Now env) Minute"
  let ?I = "New_initialize env ?ctx (Now env)"
  note ctxs = New_initialize_contexts [of env ?ctx "Now env"]
  have a: "contexts (fst (New env conf)) =
      replicate (length (initialized (fst (New env conf)))) ?ctx"
    using ctxs by (simp add: New_unfold split: option.splits)
  have b: "initialized (fst (New env conf)) =
       take (length (initialized (fst (New env conf)))) declaredOrder"
    using ctxs by (simp add: New_unfold split: option.splits)
  have nw: "filter (\<lambda>e. e = EvWithTimeout Minute) (fst (New_construct env conf)) = []"
    "filter (\<lambda>e. e = EvWithTimeout Minute) (fst ?I) = []"
    using New_construct_initialized(6) [of Minute env conf]
      New_initialize_plain(3) [of Minute env ?ctx "Now env"]
    by (auto simp: filter_empty_conv)
  have c: "length (filter (\<lambda>e. e = EvWithTimeout Minute) (fst (New env conf))) \<le> 1"
    using nw by (simp add: New_unfold split: option.splits)
  have d: "\<forall>sh. snd (New env conf) = Inr sh \<longrightarrow> initialized (fst (New env conf)) = declaredOrder"
    using ctxs by (simp add: New_unfold split: option.splits)
  have e: "snd (New_construct env conf) = None \<and> Initialize env = Initialize_spec need
        \<and> Minute < need CustomerSvc + need AddressSvc + need FrontendSvc + need OrderSvc
      \<longrightarrow> (\<exists>svc \<in> set declaredOrder.
             snd (New env conf) =
               Inl (Wrapf (''failed to initialize '' @ serviceName svc @ '' service'')
                      DeadlineExceeded))"
  proof (intro impI, elim conjE)
    assume ok: "snd (New_construct env conf) = None"
      and sp: "Initialize env = Initialize_spec need"
      and lt: "Minute < need CustomerSvc + need AddressSvc + need FrontendSvc + need OrderSvc"
    from New_initialize_deadline [OF sp lt, of "Now env"]
    obtain svc where "svc \<in> set declaredOrder"
      and "snd ?I = Some (Wrapf (''failed to initialize '' @ serviceName svc @ '' service'')
                     DeadlineExceeded)"
      by blast
    then show "\<exists>svc \<in> set declaredOrder.
             snd (New env conf) =
               Inl (Wrapf (''failed to initialize '' @ serviceName svc @ '' service'')
                      DeadlineExceeded)"
      using ok by (auto simp: New_unfold)
  qed
  from a b c d e show ?thesis by blast
qed

theorem New_shared_deadline_witness:
  "contexts (fst (New envSlow conf0)) = replicate 4 \<lparr>Deadline = 60000000000\<rparr>
   \<and> initialized (fst (New envSlow conf0)) = declaredOrder
   \<and> snd (New_construct envSlow conf0) = None
   \<and> Minute < 20 * Second + 20 * Second + 20 * Second + 20 * Second
   \<and> snd (New envSlow conf0) =
        Inl (Wrapf ''failed to initialize order service'' DeadlineExceeded)"
  using New_shared_deadline [of envSlow conf0 "\<lambda>svc. 20 * Second"]
  by (simp add: New_def New_construct_def New_initialize_def envSlow_def envOk_def
      declaredOrder_def Let_def Initialize_spec_def WithTimeout_def Minute_def Second_def
      numeral_eq_Suc)

text \<open>
  C8. For every configuration and every behaviour of the collaborators, the context
  passed to each \<^verbatim>\<open>Initialize\<close> expires exactly one minute (60 * 10^9 ns) after its
  creation, and \<^verbatim>\<open>WithTimeout\<close> is called with that constant only.
\<close>

theorem New_deadline_one_minute:
  "(\<forall>c \<in> set (contexts (fst (New env conf))). Deadline c - Now env = 60 * 1000000000)
   \<and> (\<forall>d. EvWithTimeout d \<in> set (fst (New env conf)) \<longrightarrow> d = 60 * 1000000000)
   \<and> (\<forall>svc c r. EvInitialize svc c r \<in> set (fst (New env conf)) \<longrightarrow>
          Deadline c - Now env = 60 * 1000000000)"
proof -
  let ?ctx = "WithTimeout (Now env) Minute"
  let ?I = "New_initialize env ?ctx (Now env)"
  have ctxs: "contexts (fst (New env conf)) =
      replicate (length (initialized (fst (New env conf)))) ?ctx"
    using New_initialize_contexts [of env ?ctx "Now env"]
    by (simp add: New_unfold split: option.splits)
  have a: "\<forall>c \<in> set (contexts (fst (New env conf))). Deadline c - Now env = 60 * 1000000000"
    unfolding ctxs by (simp add: WithTimeout_def Minute_def Second_def)
  have b: "\<forall>d. EvWithTimeout d \<in> set (fst (New env conf)) \<longrightarrow> d = 60 * 1000000000"
    by (auto simp: New_unfold Minute_def Second_def split: option.splits)
  have mem: "EvInitialize svc c r \<in> set es \<Longrightarrow> c \<in> set (contexts es)" for svc c r es
    by (induction es rule: contexts.induct) auto
  from a mem have c: "\<forall>svc c r. EvInitialize svc c r \<in> set (fst (New env conf)) \<longrightarrow>
          Deadline c - Now env = 60 * 1000000000"
    by blast
  from a b c show ?thesis by blast
qed

theorem New_deadline_one_minute_witness:
  "set (contexts (fst (New envOk conf0))) = {\<lparr>Deadline = 60000000000\<rparr>}
   \<and> set (contexts (fst (New envOk (conf0\<lparr>Shop := \<lparr>RequestRate = 1000, RequestRateInterval = 5\<rparr>\<rparr>))))
       = {\<lparr>Deadline = 60000000000\<rparr>}
   \<and> Deadline \<lparr>Deadline = 60000000000\<rparr> - Now envOk = 60 * 1000000000"
  using New_deadline_one_minute [of envOk conf0]
  by (simp add: New_def New_construct_def New_initialize_def New_finish_def envOk_def
      Let_def Initialize_spec_def WithTimeout_def Minute_def Second_def
      NewChooser_spec_def choices_def)


lemma New_table:
  assumes "EvNewChooser t \<in> set (fst (New env conf))"
  shows "t = choices"
    and "snd (New env conf) = snd (New_finish env conf)"
    and "takeWhile (\<lambda>e. \<not> isNewChooser e) (fst (New env conf)) =
           fst (New_construct env conf) @ [EvWithTimeout Minute]
           @ fst (New_initialize env (WithTimeout (Now env) Minute) (Now env))
           @ [EvGo (SvcStart AddressSvc), EvGo (SvcStart OrderSvc)]"
    and "dropWhile (\<lambda>e. \<not> isNewChooser e) (fst (New env conf)) =
           [EvNewChooser choices, EvCancel]"
proof -
  let ?I = "New_initialize env (WithTimeout (Now env) Minute) (Now env)"
  from assms have ok: "snd (New_construct env conf) = None" "snd ?I = None"
    by (auto simp: New_unfold split: option.splits)
  from assms ok show "t = choices"
    by (auto simp: New_unfold)
  from ok show "snd (New env conf) = snd (New_finish env conf)"
    by (simp add: New_unfold)
  have tw: "takeWhile (\<lambda>e. \<not> isNewChooser e) (xs @ ys) = xs @ takeWhile (\<lambda>e. \<not> isNewChooser e) ys"
    if "takeWhile (\<lambda>e. \<not> isNewChooser e) xs = xs" for xs ys
    using that by (metis takeWhile_append2 takeWhile_eq_all_conv)
  have dw: "dropWhile (\<lambda>e. \<not> isNewChooser e) (xs @ ys) = dropWhile (\<lambda>e. \<not> isNewChooser e) ys"
    if "takeWhile (\<lambda>e. \<not> isNewChooser e) xs = xs" for xs ys
    using that by (metis dropWhile_append2 takeWhile_eq_all_conv)
  from ok show "takeWhile (\<lambda>e. \<not> isNewChooser e) (fst (New env conf)) =
           fst (New_construct env conf) @ [EvWithTimeout Minute] @ fst ?I
           @ [EvGo (SvcStart AddressSvc), EvGo (SvcStart OrderSvc)]"
    by (simp add: New_unfold tw)
  from ok show "dropWhile (\<lambda>e. \<not> isNewChooser e) (fst (New env conf)) =
           [EvNewChooser choices, EvCancel]"
    by (simp add: New_unfold dw)
qed

text \<open>
  C5. The table \<^verbatim>\<open>New\<close> hands to the chooser's constructor has exactly six entries:
  frontend-event 1000, customer-create 50, address-create 30, customer-delete 8,
  customer-modify 6, order-create 5, each the method value of the producer it belongs
  to; the shop returned holds the chooser built from that table.
\<close>

theorem New_weighted_action_table:
  assumes "EvNewChooser t \<in> set (fst (New env conf))"
  shows "length t = 6
    \<and> map (\<lambda>c. (Item c, Weight c)) t =
        [(Func FrontendSvc CreateFrontendEvent, 1000),
         (Func CustomerSvc CreateCustomer, 50),
         (Func AddressSvc CreateAddress, 30),
         (Func CustomerSvc DeleteCustomer, 8),
         (Func CustomerSvc ModifyCustomer, 6),
         (Func OrderSvc CreateOrder, 5)]
    \<and> (\<forall>sh. snd (New env conf) = Inr sh \<longrightarrow> NewChooser env t = Inr (chooser sh))"
proof -
  from New_table(1,2) [OF assms] show ?thesis
    by (auto simp: choices_def New_finish_result split: sum.splits)
qed

theorem New_weighted_action_table_witness:
  "EvNewChooser choices \<in> set (fst (New envOk conf0))
   \<and> map (\<lambda>c. (Item c, Weight c)) choices =
        [(Func FrontendSvc CreateFrontendEvent, 1000),
         (Func CustomerSvc CreateCustomer, 50),
         (Func AddressSvc CreateAddress, 30),
         (Func CustomerSvc DeleteCustomer, 8),
         (Func CustomerSvc ModifyCustomer, 6),
         (Func OrderSvc CreateOrder, 5)]
   \<and> (\<exists>sh. snd (New envOk conf0) = Inr sh \<and> entries (chooser sh) = choices)"
  using New_weighted_action_table [of choices envOk conf0]
  by (simp add: New_def New_construct_def New_initialize_def New_finish_def envOk_def
      Let_def Initialize_spec_def WithTimeout_def Minute_def Second_def
      NewChooser_spec_def choices_def)

text \<open>
  C9. When the chooser's constructor fails, \<^verbatim>\<open>New\<close> returns the wrapped error, and the
  goroutines \<^verbatim>\<open>addressSvc.Start()\<close> and \<^verbatim>\<open>orderSvc.Start()\<close> were launched before the
  constructor was called; after the failed construction \<^verbatim>\<open>New\<close> only runs the deferred
  \<^verbatim>\<open>cancel()\<close> of a context that neither goroutine received, so nothing stops them.
\<close>

theorem New_chooser_failure_not_atomic:
  assumes "EvNewChooser t \<in> set (fst (New env conf))"
    and "NewChooser env t = Inl err"
  shows "snd (New env conf) = Inl (Wrapf ''failed to create random chooser'' err)
    \<and> launched (takeWhile (\<lambda>e. \<not> isNewChooser e) (fst (New env conf))) =
        [SvcStart AddressSvc, SvcStart OrderSvc]
    \<and> dropWhile (\<lambda>e. \<not> isNewChooser e) (fst (New env conf)) = [EvNewChooser t, EvCancel]"
proof -
  note tb = New_table [OF assms(1)]
  from tb(1,2) assms(2)
  have a: "snd (New env conf) = Inl (Wrapf ''failed to create random chooser'' err)"
    by (simp add: New_finish_result)
  have b: "launched (takeWhile (\<lambda>e. \<not> isNewChooser e) (fst (New env conf))) =
        [SvcStart AddressSvc, SvcStart OrderSvc]"
    unfolding tb(3) by simp
  from a b tb(1,4) show ?thesis by simp
qed

theorem New_chooser_failure_not_atomic_witness:
  "EvNewChooser choices \<in> set (fst (New envFail conf0))
   \<and> NewChooser envFail choices = Inl (Errorf ''bad table'')
   \<and> snd (New envFail conf0) =
       Inl (Wrapf ''failed to create random chooser'' (Errorf ''bad table''))
   \<and> launched (fst (New envFail conf0)) = [SvcStart AddressSvc, SvcStart OrderSvc]"
  using New_chooser_failure_not_atomic [of choices envFail conf0 "Errorf ''bad table''"]
  by (simp add: New_def New_construct_def New_initialize_def New_finish_def envOk_def
      envFail_def Let_def Initialize_spec_def WithTimeout_def Minute_def Second_def)


section \<open>Properties of Start\<close>

lemma run_exited: "exited P \<Longrightarrow> run env s cs P = P"
  by (induction cs) (simp_all add: step_def)

lemma run_append: "run env s (cs @ ds) P = run env s ds (run env s cs P)"
  by (induction cs arbitrary: P) simp_all

lemma exited_main_step [simp]: "exited (main_step s P) = exited P"
  by (simp add: main_step_def SimulatePageImpression_def split: pc.splits)

lemma exited_funpow_main [simp]: "exited ((main_step s ^^ n) P) = exited P"
  by (induction n) simp_all

lemma run_replicate_main:
  "\<not> exited P \<Longrightarrow> run env s (replicate n RunMain) P = (main_step s ^^ n) P"
proof (induction n arbitrary: P)
  case 0
  then show ?case by simp
next
  case (Suc n)
  then show ?case by (simp add: step_def funpow_swap1)
qed

lemma mainView_unit_step [simp]: "mainView (unit_step env s n inp P) = mainView P"
  by (simp add: unit_step_def mainView_def split: ustate.splits input.splits item.splits)

lemma mainView_main_step:
  "mainView P = mainView Q \<Longrightarrow> mainView (main_step s P) = mainView (main_step s Q)"
  by (simp add: mainView_def main_step_def SimulatePageImpression_def split: pc.splits)

lemma mainView_run:
  assumes "\<not> exited (run env s cs P)" and "mainView P = mainView Q"
  shows "mainView (run env s cs P) = mainView ((main_step s ^^ count_list cs RunMain) Q)"
  using assms
proof (induction cs arbitrary: P Q)
  case Nil
  then show ?case by simp
next
  case (Cons c cs)
  have ne: "\<not> exited P"
  proof
    assume "exited P"
    then have "run env s (c # cs) P = P" by (rule run_exited)
    with Cons.prems(1) \<open>exited P\<close> show False by simp
  qed
  show ?case
  proof (cases c)
    case RunMain
    with ne have st: "step env s c P = main_step s P" by (simp add: step_def)
    from Cons.prems(2) have "mainView (main_step s P) = mainView (main_step s Q)"
      by (rule mainView_main_step)
    with Cons.IH [of "main_step s P" "main_step s Q"] Cons.prems(1) st RunMain
    show ?thesis by (simp add: funpow_swap1)
  next
    case (RunUnit n inp)
    with ne have st: "step env s c P = unit_step env s n inp P" by (simp add: step_def)
    with Cons.IH [of "unit_step env s n inp P" Q] Cons.prems RunUnit
    show ?thesis by simp
  qed
qed

lemma iteration:
  assumes "mainPc P = L117 i" and "i < RequestRate (Shop (cfg s))"
  shows "(main_step s ^^ 3) P =
     P\<lparr>pageImpressionsSimulated := pageImpressionsSimulated P + 1,
       mainTrace := mainTrace P @ [Inc, Go PageImpression],
       units := units P @ [I130],
       mainPc := L117 (i + 1)\<rparr>"
  using assms
  by (simp add: numeral_3_eq_3 main_step_def SimulatePageImpression_def)

lemma iterations:
  assumes "mainPc P = L117 i" and "i + int n \<le> RequestRate (Shop (cfg s))"
  shows "(main_step s ^^ (3 * n)) P =
     P\<lparr>pageImpressionsSimulated := pageImpressionsSimulated P + n,
       mainTrace := mainTrace P @ concat (replicate n [Inc, Go PageImpression]),
       units := units P @ replicate n I130,
       mainPc := L117 (i + int n)\<rparr>"
  using assms
proof (induction n arbitrary: P i)
  case 0
  then show ?case by simp
next
  case (Suc n)
  let ?P1 = "(main_step s ^^ 3) P"
  have lt: "i < RequestRate (Shop (cfg s))" using Suc.prems(2) by simp
  note one = iteration [OF Suc.prems(1) lt]
  have pc1: "mainPc ?P1 = L117 (i + 1)" by (simp add: one)
  have le1: "(i + 1) + int n \<le> RequestRate (Shop (cfg s))" using Suc.prems(2) by simp
  have "3 * Suc n = 3 * n + 3" by simp
  then have "(main_step s ^^ (3 * Suc n)) P = (main_step s ^^ (3 * n)) ?P1"
    by (simp only: funpow_add o_apply)
  also have "\<dots> = ?P1\<lparr>pageImpressionsSimulated := pageImpressionsSimulated ?P1 + n,
       mainTrace := mainTrace ?P1 @ concat (replicate n [Inc, Go PageImpression]),
       units := units ?P1 @ replicate n I130,
       mainPc := L117 ((i + 1) + int n)\<rparr>"
    by (rule Suc.IH [OF pc1 le1])
  also have "\<dots> = P\<lparr>pageImpressionsSimulated := pageImpressionsSimulated P + Suc n,
       mainTrace := mainTrace P @ concat (replicate (Suc n) [Inc, Go PageImpression]),
       units := units P @ replicate (Suc n) I130,
       mainPc := L117 (i + int (Suc n))\<rparr>"
    by (simp add: one add.commute add.left_commute replicate_app_Cons_same)
  finally show ?case .
qed


lemma tick:
  assumes "mainPc P = L117 0"
  shows "(main_step s ^^ tickSteps s) P =
     P\<lparr>pageImpressionsSimulated :=
         pageImpressionsSimulated P + nat (RequestRate (Shop (cfg s))),
       mainTrace := mainTrace P @ tickTrace s,
       units := units P @ replicate (nat (RequestRate (Shop (cfg s)))) I130\<rparr>"
proof -
  let ?R = "RequestRate (Shop (cfg s))"
  let ?P1 = "(main_step s ^^ (3 * nat ?R)) P"
  have le: "0 + int (nat ?R) \<le> ?R \<or> ?R < 0" by simp
  have P1: "?P1 = P\<lparr>pageImpressionsSimulated := pageImpressionsSimulated P + nat ?R,
       mainTrace := mainTrace P @ concat (replicate (nat ?R) [Inc, Go PageImpression]),
       units := units P @ replicate (nat ?R) I130,
       mainPc := L117 (int (nat ?R))\<rparr>"
  proof (cases "?R < 0")
    case True
    then show ?thesis using assms by simp
  next
    case False
    then have "0 + int (nat ?R) \<le> ?R" by simp
    from iterations [OF assms this] show ?thesis by simp
  qed
  have "(main_step s ^^ tickSteps s) P = main_step s (main_step s ?P1)"
    by (simp add: tickSteps_def)
  also have "\<dots> = P\<lparr>pageImpressionsSimulated := pageImpressionsSimulated P + nat ?R,
       mainTrace := mainTrace P @ tickTrace s,
       units := units P @ replicate (nat ?R) I130\<rparr>"
    using assms by (simp add: P1 main_step_def tickTrace_def)
  finally show ?thesis .
qed

lemma ticks:
  assumes "mainPc P = L117 0"
  shows "(main_step s ^^ (k * tickSteps s)) P =
     P\<lparr>pageImpressionsSimulated :=
         pageImpressionsSimulated P + k * nat (RequestRate (Shop (cfg s))),
       mainTrace := mainTrace P @ concat (replicate k (tickTrace s)),
       units := units P @ replicate (k * nat (RequestRate (Shop (cfg s)))) I130\<rparr>"
  using assms
proof (induction k arbitrary: P)
  case 0
  then show ?case by simp
next
  case (Suc k)
  let ?P1 = "(main_step s ^^ tickSteps s) P"
  note one = tick [OF Suc.prems, of s]
  have pc1: "mainPc ?P1 = L117 0" using Suc.prems by (simp add: one)
  have "Suc k * tickSteps s = k * tickSteps s + tickSteps s" by simp
  then have "(main_step s ^^ (Suc k * tickSteps s)) P = (main_step s ^^ (k * tickSteps s)) ?P1"
    by (simp only: funpow_add o_apply)
  also note Suc.IH [OF pc1]
  finally show ?case
    by (simp add: one replicate_add)
qed

lemma issued_append: "issued (P\<lparr>mainTrace := mainTrace P @ es\<rparr>) =
   issued P + length (filter (\<lambda>e. e = Go PageImpression) es)"
  by (simp add: issued_def)

lemma count_tickTrace:
  "length (filter (\<lambda>e. e = Go PageImpression) (concat (replicate k (tickTrace s)))) =
     k * nat (RequestRate (Shop (cfg s)))"
proof -
  have a: "length (filter (\<lambda>e. e = Go PageImpression)
             (concat (replicate n [Inc, Go PageImpression]))) = n" for n
    by (induction n) simp_all
  have b: "length (filter (\<lambda>e. e = Go PageImpression) (tickTrace s)) =
      nat (RequestRate (Shop (cfg s)))"
    by (simp add: tickTrace_def a)
  show ?thesis
    by (induction k) (simp_all add: b)
qed

lemma New_envOk: "snd (New envOk conf0) = Inr shop0"
  by (simp add: New_def New_construct_def New_initialize_def New_finish_def envOk_def
      Let_def Initialize_spec_def WithTimeout_def Minute_def Second_def
      NewChooser_spec_def choices_def shop0_def)

lemma Start_never_returns: "Start s P = None"
proof -
  have "False" if ret: "Start s P = Some Q" for Q
  proof (rule Start.raw_induct [where Pa = "\<lambda>a b. False", OF _ ret])
    fix f s' P' Q'
    assume "\<And>P b y. f P b = Some y \<Longrightarrow> False" and "f s' (main_step s' P') = Some Q'"
    then show False by blast
  qed
  then show ?thesis by (cases "Start s P") auto
qed

lemma prologue:
  "(main_step s ^^ 2) atStart =
     atStart\<lparr>mainPc := L117 0, mainTrace := [Handle ''/metrics'', Go MetricsServer],
             units := [M112]\<rparr>"
  by (simp add: numeral_2_eq_2 main_step_def atStart_def)

text \<open>
  C1. For every positive \<^verbatim>\<open>RequestRate\<close> \<open>R\<close> and every \<^verbatim>\<open>RequestRateInterval\<close> \<open>D\<close>, a
  tick of the loop is \<open>R\<close> times (increment the counter, then dispatch one impression)
  followed by one sleep of \<open>D\<close>. Under every schedule, whatever the launched goroutines
  did or did not do meanwhile (picked, returned after success or failure, never ran),
  once \<^verbatim>\<open>Start\<close> has run its two opening statements and the statements of \<open>k\<close> ticks in
  a process that is still alive, its effects are those \<open>k\<close> ticks, it has issued exactly
  \<open>k * R\<close> impressions and the counter is \<open>k * R\<close>.
\<close>

theorem Start_issues_exactly_rate:
  assumes R: "0 < RequestRate (Shop (cfg s))"
    and ne: "\<not> exited (run env s cs atStart)"
    and cnt: "count_list cs RunMain = 2 + k * tickSteps s"
  shows "tickTrace s =
           concat (replicate (nat (RequestRate (Shop (cfg s)))) [Inc, Go PageImpression])
           @ [Sleep (RequestRateInterval (Shop (cfg s)))]
     \<and> mainTrace (run env s cs atStart) =
           [Handle ''/metrics'', Go MetricsServer] @ concat (replicate k (tickTrace s))
     \<and> int (issued (run env s cs atStart)) = int k * RequestRate (Shop (cfg s))
     \<and> int (pageImpressionsSimulated (run env s cs atStart)) =
           int k * RequestRate (Shop (cfg s))"
proof -
  let ?L = "atStart\<lparr>mainPc := L117 0, mainTrace := [Handle ''/metrics'', Go MetricsServer],
             units := [M112]\<rparr>"
  let ?n = "nat (RequestRate (Shop (cfg s)))"
  have pcL: "mainPc ?L = L117 0" by simp
  have "2 + k * tickSteps s = k * tickSteps s + 2" by simp
  then have "(main_step s ^^ (2 + k * tickSteps s)) atStart =
      (main_step s ^^ (k * tickSteps s)) ((main_step s ^^ 2) atStart)"
    by (simp only: funpow_add o_apply)
  also have "\<dots> = (main_step s ^^ (k * tickSteps s)) ?L"
    by (simp only: prologue)
  also note ticks [OF pcL, where s = s and k = k]
  finally have alone: "(main_step s ^^ (2 + k * tickSteps s)) atStart =
      ?L\<lparr>pageImpressionsSimulated := pageImpressionsSimulated ?L + k * ?n,
         mainTrace := mainTrace ?L @ concat (replicate k (tickTrace s)),
         units := units ?L @ replicate (k * ?n) I130\<rparr>" .
  from mainView_run [OF ne refl] cnt
  have view: "mainView (run env s cs atStart) =
      mainView ((main_step s ^^ (2 + k * tickSteps s)) atStart)"
    by simp
  have tr: "mainTrace (run env s cs atStart) =
      [Handle ''/metrics'', Go MetricsServer] @ concat (replicate k (tickTrace s))"
    using view unfolding alone by (simp add: mainView_def)
  have ctr: "pageImpressionsSimulated (run env s cs atStart) = k * ?n"
    using view unfolding alone by (simp add: mainView_def atStart_def)
  have iss: "issued (run env s cs atStart) = k * ?n"
    unfolding issued_def tr by (simp add: count_tickTrace)
  from R have "int (k * ?n) = int k * RequestRate (Shop (cfg s))" by simp
  with tr ctr iss show ?thesis by (simp add: tickTrace_def)
qed

theorem Start_issues_exactly_rate_witness:
  "0 < RequestRate (Shop (cfg shop0))
   \<and> \<not> exited (run envOk shop0 sched0 atStart)
   \<and> count_list sched0 RunMain = 2 + 1 * tickSteps shop0
   \<and> issued (run envOk shop0 sched0 atStart) = 3
   \<and> pageImpressionsSimulated (run envOk shop0 sched0 atStart) = 3
   \<and> units (run envOk shop0 sched0 atStart) =
        [Done, Done, I134 AddressSvc CreateAddress, I130]"
  using Start_issues_exactly_rate [of shop0 envOk sched0 1]
  by (simp add: shop0_def conf0_def sched0_def tickSteps_def step_def main_step_def
      unit_step_def SimulatePageImpression_def atStart_def envOk_def Pick_spec_def
      searchIndex_def choices_def issued_def Let_def tickTrace_def numeral_3_eq_3)


lemma units_main_step:
  "n < length (units P) \<Longrightarrow> units (main_step s P) ! n = units P ! n"
  by (simp add: main_step_def SimulatePageImpression_def nth_append split: pc.splits)

lemma pending_unit_step:
  assumes "n < length (units P)" and "units P ! n = I130"
  shows "exited (unit_step env s k inp P) \<or> units (unit_step env s k inp P) ! n = I130
     \<or> (\<exists>svc m. units (unit_step env s k inp P) ! n = I134 svc m
           \<and> last (unitTrace (unit_step env s k inp P)) = (n, Invoke svc m))"
proof (cases "k = n")
  case True
  with assms show ?thesis
    by (cases inp) (auto simp: unit_step_def split: item.splits)
next
  case False
  with assms show ?thesis
    by (auto simp: unit_step_def split: ustate.splits input.splits item.splits)
qed

lemma pending_step:
  assumes "n < length (units P)" and "units P ! n = I130"
  shows "exited (step env s c P) \<or> units (step env s c P) ! n = I130
     \<or> (\<exists>svc m. units (step env s c P) ! n = I134 svc m
           \<and> last (unitTrace (step env s c P)) = (n, Invoke svc m))"
proof (cases "exited P")
  case True
  then show ?thesis by (simp add: step_def)
next
  case False
  show ?thesis
  proof (cases c)
    case RunMain
    with False assms show ?thesis by (simp add: step_def units_main_step)
  next
    case (RunUnit k inp)
    with False pending_unit_step [OF assms, of env s k inp] show ?thesis
      by (simp add: step_def)
  qed
qed

text \<open>
  C2. When the value picked by a launched impression is not a \<^verbatim>\<open>func()\<close>, that goroutine
  logs at fatal level and exits the process: nothing runs afterwards, whatever is
  scheduled. No step of the process takes a pending impression anywhere but to the
  invocation of a picked action or to the exit of the process.
\<close>

theorem impression_not_func_is_fatal:
  assumes "\<not> exited P" and "n < length (units P)" and "units P ! n = I130"
    and "Pick env (chooser s) r = NotFunc"
  shows "exited (step env s (RunUnit n (Rand r)) P)
    \<and> unitTrace (step env s (RunUnit n (Rand r)) P) =
        unitTrace P @ [(n, LogFatal ''randomly picked method is not a func''), (n, Exit 1)]
    \<and> (\<forall>cs. run env s cs (step env s (RunUnit n (Rand r)) P) =
              step env s (RunUnit n (Rand r)) P)
    \<and> (\<forall>c. exited (step env s c P) \<or> units (step env s c P) ! n = I130
          \<or> (\<exists>svc m. units (step env s c P) ! n = I134 svc m
                \<and> last (unitTrace (step env s c P)) = (n, Invoke svc m)))"
proof -
  let ?P' = "step env s (RunUnit n (Rand r)) P"
  from assms have ex: "exited ?P'"
    by (simp add: step_def unit_step_def)
  from assms have tr: "unitTrace ?P' =
      unitTrace P @ [(n, LogFatal ''randomly picked method is not a func''), (n, Exit 1)]"
    by (simp add: step_def unit_step_def)
  from ex have stop: "\<forall>cs. run env s cs ?P' = ?P'"
    by (simp add: run_exited)
  from pending_step [OF assms(2,3)] ex tr stop show ?thesis by blast
qed

theorem impression_not_func_is_fatal_witness:
  "\<not> exited (run envBad shop0 (replicate 5 RunMain) atStart)
   \<and> units (run envBad shop0 (replicate 5 RunMain) atStart) ! 1 = I130
   \<and> Pick envBad (chooser shop0) 1000 = NotFunc
   \<and> exited (run envBad shop0 (replicate 5 RunMain @ [RunUnit 1 (Rand 1000)]) atStart)
   \<and> run envBad shop0 (replicate 5 RunMain @ [RunUnit 1 (Rand 1000)] @ replicate 20 RunMain)
        atStart
      = run envBad shop0 (replicate 5 RunMain @ [RunUnit 1 (Rand 1000)]) atStart
   \<and> pageImpressionsSimulated
        (run envBad shop0 (replicate 5 RunMain @ [RunUnit 1 (Rand 1000)] @ replicate 20 RunMain)
          atStart) = 1"
proof -
  let ?P = "run envBad shop0 (replicate 5 RunMain) atStart"
  have P: "?P = \<lparr>pageImpressionsSimulated = 1, mainPc = L117 1,
      mainTrace = [Handle ''/metrics'', Go MetricsServer, Inc, Go PageImpression],
      units = [M112, I130], unitTrace = [], exited = False\<rparr>"
    by (simp add: numeral_eq_Suc step_def main_step_def SimulatePageImpression_def
        atStart_def shop0_def conf0_def)
  have h: "\<not> exited ?P" "1 < length (units ?P)" "units ?P ! 1 = I130"
    by (simp_all add: P)
  have pk: "Pick envBad (chooser shop0) 1000 = NotFunc"
    by (simp add: envBad_def)
  have one: "pageImpressionsSimulated (step envBad shop0 (RunUnit 1 (Rand 1000)) ?P) = 1"
    by (simp add: P step_def unit_step_def pk)
  from impression_not_func_is_fatal [OF h pk] h pk one show ?thesis
    by (simp add: run_append)
qed

lemma dispatch_only_launches:
  "units (SimulatePageImpression P) = units P @ [I130]
   \<and> mainTrace (SimulatePageImpression P) = mainTrace P @ [Go PageImpression]
   \<and> unitTrace (SimulatePageImpression P) = unitTrace P
   \<and> pageImpressionsSimulated (SimulatePageImpression P) = pageImpressionsSimulated P
   \<and> mainPc (SimulatePageImpression P) = mainPc P
   \<and> exited (SimulatePageImpression P) = exited P"
  by (simp add: SimulatePageImpression_def)

lemma unit_picks_and_invokes:
  assumes "\<not> exited P" and "n < length (units P)" and "units P ! n = I130"
    and "Pick env (chooser s) r = Func svc m"
  shows "units (step env s (RunUnit n (Rand r)) P) = (units P)[n := I134 svc m]"
    and "unitTrace (step env s (RunUnit n (Rand r)) P) = unitTrace P @ [(n, Invoke svc m)]"
    and "mainView (step env s (RunUnit n (Rand r)) P) = mainView P"
    and "\<not> exited (step env s (RunUnit n (Rand r)) P)"
    and "units (step env s (RunUnit n (Outcome out)) (step env s (RunUnit n (Rand r)) P)) =
           (units P)[n := Done]"
    and "unitTrace (step env s (RunUnit n (Outcome out)) (step env s (RunUnit n (Rand r)) P)) =
           unitTrace P @ [(n, Invoke svc m), (n, Returned svc m out)]"
    and "mainView (step env s (RunUnit n (Outcome out)) (step env s (RunUnit n (Rand r)) P)) =
           mainView P"
  using assms by (simp_all add: step_def unit_step_def mainView_def)

lemma loop_does_not_wait:
  assumes "\<not> exited P" and "mainPc P = L117 0"
  shows "run env s (replicate (k * tickSteps s) RunMain) P =
     P\<lparr>pageImpressionsSimulated :=
         pageImpressionsSimulated P + k * nat (RequestRate (Shop (cfg s))),
       mainTrace := mainTrace P @ concat (replicate k (tickTrace s)),
       units := units P @ replicate (k * nat (RequestRate (Shop (cfg s)))) I130\<rparr>"
  using assms by (simp add: run_replicate_main ticks)

lemma after_five_statements:
  "run env shop0 (replicate 5 RunMain) atStart =
     \<lparr>pageImpressionsSimulated = 1, mainPc = L117 1,
      mainTrace = [Handle ''/metrics'', Go MetricsServer, Inc, Go PageImpression],
      units = [M112, I130], unitTrace = [], exited = False\<rparr>"
  by (simp add: numeral_eq_Suc step_def main_step_def SimulatePageImpression_def
      atStart_def shop0_def conf0_def)

lemma after_two_statements:
  "run env s (replicate 2 RunMain) atStart =
     \<lparr>pageImpressionsSimulated = 0, mainPc = L117 0,
      mainTrace = [Handle ''/metrics'', Go MetricsServer],
      units = [M112], unitTrace = [], exited = False\<rparr>"
  by (simp add: numeral_eq_Suc step_def main_step_def atStart_def)

text \<open>
  C7. Dispatching an impression only launches a goroutine: \<^verbatim>\<open>SimulatePageImpression\<close>
  returns with one more goroutine that has not yet picked, and has itself neither picked
  nor invoked anything. The launched goroutine picks once and invokes the picked action
  once, without touching what \<^verbatim>\<open>Start\<close> sees. The next statement of \<^verbatim>\<open>Start\<close> does not
  depend on the state of the launched goroutines, and when none of them is ever
  scheduled the loop still completes \<open>k\<close> ticks, leaving \<open>k * R\<close> more goroutines
  outstanding: no waiting, no bound on the outstanding work.
\<close>

theorem dispatch_fire_and_forget:
  "units (SimulatePageImpression P) = units P @ [I130]
   \<and> mainTrace (SimulatePageImpression P) = mainTrace P @ [Go PageImpression]
   \<and> unitTrace (SimulatePageImpression P) = unitTrace P
   \<and> pageImpressionsSimulated (SimulatePageImpression P) = pageImpressionsSimulated P
   \<and> exited (SimulatePageImpression P) = exited P
   \<and> (\<not> exited P \<and> n < length (units P) \<and> units P ! n = I130
        \<and> Pick env (chooser s) r = Func svc m \<longrightarrow>
      units (step env s (RunUnit n (Rand r)) P) = (units P)[n := I134 svc m]
      \<and> mainView (step env s (RunUnit n (Rand r)) P) = mainView P
      \<and> units (step env s (RunUnit n (Outcome out)) (step env s (RunUnit n (Rand r)) P)) =
           (units P)[n := Done]
      \<and> unitTrace (step env s (RunUnit n (Outcome out)) (step env s (RunUnit n (Rand r)) P)) =
           unitTrace P @ [(n, Invoke svc m), (n, Returned svc m out)]
      \<and> mainView (step env s (RunUnit n (Outcome out)) (step env s (RunUnit n (Rand r)) P)) =
           mainView P)
   \<and> (\<not> exited P \<and> \<not> exited Q \<and> mainView P = mainView Q \<longrightarrow>
        mainView (step env s RunMain P) = mainView (step env s RunMain Q))
   \<and> (\<not> exited P \<and> mainPc P = L117 0 \<longrightarrow>
        mainPc (run env s (replicate (k * tickSteps s) RunMain) P) = L117 0
        \<and> mainTrace (run env s (replicate (k * tickSteps s) RunMain) P) =
            mainTrace P @ concat (replicate k (tickTrace s))
        \<and> units (run env s (replicate (k * tickSteps s) RunMain) P) =
            units P @ replicate (k * nat (RequestRate (Shop (cfg s)))) I130
        \<and> outstanding (run env s (replicate (k * tickSteps s) RunMain) P) =
            outstanding P + k * nat (RequestRate (Shop (cfg s))))"
proof -
  have b: "\<not> exited P \<and> n < length (units P) \<and> units P ! n = I130
        \<and> Pick env (chooser s) r = Func svc m \<longrightarrow>
      units (step env s (RunUnit n (Rand r)) P) = (units P)[n := I134 svc m]
      \<and> mainView (step env s (RunUnit n (Rand r)) P) = mainView P
      \<and> units (step env s (RunUnit n (Outcome out)) (step env s (RunUnit n (Rand r)) P)) =
           (units P)[n := Done]
      \<and> unitTrace (step env s (RunUnit n (Outcome out)) (step env s (RunUnit n (Rand r)) P)) =
           unitTrace P @ [(n, Invoke svc m), (n, Returned svc m out)]
      \<and> mainView (step env s (RunUnit n (Outcome out)) (step env s (RunUnit n (Rand r)) P)) =
           mainView P"
  proof (intro impI, elim conjE)
    assume h: "\<not> exited P" "n < length (units P)" "units P ! n = I130"
      "Pick env (chooser s) r = Func svc m"
    from unit_picks_and_invokes(1,3,5,6,7) [OF h]
    show "units (step env s (RunUnit n (Rand r)) P) = (units P)[n := I134 svc m]
      \<and> mainView (step env s (RunUnit n (Rand r)) P) = mainView P
      \<and> units (step env s (RunUnit n (Outcome out)) (step env s (RunUnit n (Rand r)) P)) =
           (units P)[n := Done]
      \<and> unitTrace (step env s (RunUnit n (Outcome out)) (step env s (RunUnit n (Rand r)) P)) =
           unitTrace P @ [(n, Invoke svc m), (n, Returned svc m out)]
      \<and> mainView (step env s (RunUnit n (Outcome out)) (step env s (RunUnit n (Rand r)) P)) =
           mainView P"
      by blast
  qed
  have c: "\<not> exited P \<and> \<not> exited Q \<and> mainView P = mainView Q \<longrightarrow>
        mainView (step env s RunMain P) = mainView (step env s RunMain Q)"
    using mainView_main_step [of P Q s] by (simp add: step_def)
  have d: "\<not> exited P \<and> mainPc P = L117 0 \<longrightarrow>
        mainPc (run env s (replicate (k * tickSteps s) RunMain) P) = L117 0
        \<and> mainTrace (run env s (replicate (k * tickSteps s) RunMain) P) =
            mainTrace P @ concat (replicate k (tickTrace s))
        \<and> units (run env s (replicate (k * tickSteps s) RunMain) P) =
            units P @ replicate (k * nat (RequestRate (Shop (cfg s)))) I130
        \<and> outstanding (run env s (replicate (k * tickSteps s) RunMain) P) =
            outstanding P + k * nat (RequestRate (Shop (cfg s)))"
    by (simp add: loop_does_not_wait outstanding_def)
  from dispatch_only_launches [of P] b c d show ?thesis by blast
qed


theorem dispatch_fire_and_forget_witness:
  "\<not> exited (run envOk shop0 (replicate 5 RunMain) atStart)
   \<and> units (run envOk shop0 (replicate 5 RunMain) atStart) ! 1 = I130
   \<and> Pick envOk (chooser shop0) 5 = Func FrontendSvc CreateFrontendEvent
   \<and> units (step envOk shop0 (RunUnit 1 (Outcome Succeeded))
         (step envOk shop0 (RunUnit 1 (Rand 5))
           (run envOk shop0 (replicate 5 RunMain) atStart))) = [M112, Done]
   \<and> mainView (step envOk shop0 (RunUnit 1 (Rand 5))
         (run envOk shop0 (replicate 5 RunMain) atStart)) =
       mainView (run envOk shop0 (replicate 5 RunMain) atStart)
   \<and> mainView (step envOk shop0 RunMain (step envOk shop0 (RunUnit 1 (Rand 5))
         (run envOk shop0 (replicate 5 RunMain) atStart))) =
       mainView (step envOk shop0 RunMain (run envOk shop0 (replicate 5 RunMain) atStart))
   \<and> mainPc (run envOk shop0 (replicate 2 RunMain) atStart) = L117 0
   \<and> units (run envOk shop0 (replicate (2 * tickSteps shop0) RunMain)
         (run envOk shop0 (replicate 2 RunMain) atStart)) =
       [M112, I130, I130, I130, I130, I130, I130]
   \<and> outstanding (run envOk shop0 (replicate (2 * tickSteps shop0) RunMain)
         (run envOk shop0 (replicate 2 RunMain) atStart)) = 7"
proof -
  let ?P = "run envOk shop0 (replicate 5 RunMain) atStart"
  let ?Q = "step envOk shop0 (RunUnit 1 (Rand 5)) ?P"
  let ?L = "run envOk shop0 (replicate 2 RunMain) atStart"
  note P = after_five_statements [of envOk]
  note L = after_two_statements [of envOk shop0]
  have pk: "Pick envOk (chooser shop0) 5 = Func FrontendSvc CreateFrontendEvent"
    by (simp add: envOk_def shop0_def Pick_spec_def searchIndex_def choices_def)
  have h: "\<not> exited ?P" "1 < length (units ?P)" "units ?P ! 1 = I130"
    by (simp_all add: P)
  have q: "\<not> exited ?Q"
    by (simp add: P step_def unit_step_def pk)
  have l: "\<not> exited ?L" "mainPc ?L = L117 0" "units ?L = [M112]" "outstanding ?L = 1"
    by (simp_all add: L outstanding_def)
  have R: "nat (RequestRate (Shop (cfg shop0))) = 3"
    by (simp add: shop0_def conf0_def)
  have rep6: "replicate 6 I130 = [I130, I130, I130, I130, I130, I130]"
    by (simp add: numeral_eq_Suc)
  from dispatch_fire_and_forget
      [where P = ?P and Q = ?Q and n = 1 and env = envOk and s = shop0 and r = 5
        and svc = FrontendSvc and m = CreateFrontendEvent and out = Succeeded and k = 0]
    dispatch_fire_and_forget
      [where P = ?L and Q = ?L and n = 0 and env = envOk and s = shop0 and r = 5
        and svc = FrontendSvc and m = CreateFrontendEvent and out = Succeeded and k = 2]
    h pk q l R rep6
  show ?thesis
    by (simp add: P)
qed

lemma metrics_failure_step:
  assumes "\<not> exited P" and "n < length (units P)" and "units P ! n = M112"
  shows "unitTrace (step env s (RunUnit n (ServeErr err)) P) =
           unitTrace P @ [(n, LogInfo ''prometheus http handler quit'' err)]"
    and "units (step env s (RunUnit n (ServeErr err)) P) = (units P)[n := Done]"
    and "\<not> exited (step env s (RunUnit n (ServeErr err)) P)"
    and "mainView (step env s (RunUnit n (ServeErr err)) P) = mainView P"
    and "mainPc (step env s (RunUnit n (ServeErr err)) P) = mainPc P"
    and "pageImpressionsSimulated (step env s (RunUnit n (ServeErr err)) P) =
           pageImpressionsSimulated P"
  using assms by (simp_all add: step_def unit_step_def mainView_def)

text \<open>
  C10. When \<^verbatim>\<open>ListenAndServe\<close> returns an error, at whatever point of the run, the
  metrics goroutine logs it at info level in its own log and returns; the process does
  not exit and what \<^verbatim>\<open>Start\<close> sees is unchanged. Under every later schedule that keeps the
  process alive \<^verbatim>\<open>Start\<close> does what it would have done without the failure, from the
  loop's entry it completes \<open>k\<close> more ticks for every \<open>k\<close>, and \<^verbatim>\<open>Start\<close> never returns.
\<close>

theorem metrics_server_failure_only_logged:
  assumes "\<not> exited P" and "n < length (units P)" and "units P ! n = M112"
  shows "unitTrace (step env s (RunUnit n (ServeErr err)) P) =
           unitTrace P @ [(n, LogInfo ''prometheus http handler quit'' err)]
    \<and> units (step env s (RunUnit n (ServeErr err)) P) = (units P)[n := Done]
    \<and> \<not> exited (step env s (RunUnit n (ServeErr err)) P)
    \<and> mainView (step env s (RunUnit n (ServeErr err)) P) = mainView P
    \<and> (\<forall>cs. \<not> exited (run env s cs (step env s (RunUnit n (ServeErr err)) P)) \<longrightarrow>
          mainView (run env s cs (step env s (RunUnit n (ServeErr err)) P)) =
            mainView ((main_step s ^^ count_list cs RunMain) P))
    \<and> (mainPc P = L117 0 \<longrightarrow>
         (\<forall>k. pageImpressionsSimulated
                 (run env s (replicate (k * tickSteps s) RunMain)
                    (step env s (RunUnit n (ServeErr err)) P)) =
               pageImpressionsSimulated P + k * nat (RequestRate (Shop (cfg s)))
             \<and> mainPc (run env s (replicate (k * tickSteps s) RunMain)
                    (step env s (RunUnit n (ServeErr err)) P)) = L117 0))
    \<and> (\<forall>Q. Start s Q = None)"
proof -
  let ?P' = "step env s (RunUnit n (ServeErr err)) P"
  note st = metrics_failure_step [OF assms, of env s err]
  have e: "\<forall>cs. \<not> exited (run env s cs ?P') \<longrightarrow>
          mainView (run env s cs ?P') = mainView ((main_step s ^^ count_list cs RunMain) P)"
    using mainView_run [OF _ st(4)] by blast
  have f: "mainPc P = L117 0 \<longrightarrow>
         (\<forall>k. pageImpressionsSimulated (run env s (replicate (k * tickSteps s) RunMain) ?P') =
               pageImpressionsSimulated P + k * nat (RequestRate (Shop (cfg s)))
             \<and> mainPc (run env s (replicate (k * tickSteps s) RunMain) ?P') = L117 0)"
  proof (intro impI allI)
    fix k
    assume "mainPc P = L117 0"
    then have pc: "mainPc ?P' = L117 0" by (simp add: st(5))
    from loop_does_not_wait [OF st(3) pc, of env s k]
    show "pageImpressionsSimulated (run env s (replicate (k * tickSteps s) RunMain) ?P') =
               pageImpressionsSimulated P + k * nat (RequestRate (Shop (cfg s)))
             \<and> mainPc (run env s (replicate (k * tickSteps s) RunMain) ?P') = L117 0"
      by (simp add: st(6) pc)
  qed
  have g: "\<forall>Q. Start s Q = None"
    by (simp add: Start_never_returns)
  show ?thesis
    by (intro conjI st(1) st(2) st(3) st(4) e f g)
qed

theorem metrics_server_failure_only_logged_witness:
  "\<not> exited (run envOk shop0 (replicate 2 RunMain) atStart)
   \<and> units (run envOk shop0 (replicate 2 RunMain) atStart) ! 0 = M112
   \<and> mainPc (run envOk shop0 (replicate 2 RunMain) atStart) = L117 0
   \<and> unitTrace (step envOk shop0 (RunUnit 0 (ServeErr (Errorf ''address already in use'')))
         (run envOk shop0 (replicate 2 RunMain) atStart)) =
       [(0, LogInfo ''prometheus http handler quit'' (Errorf ''address already in use''))]
   \<and> pageImpressionsSimulated
         (run envOk shop0 (replicate (4 * tickSteps shop0) RunMain)
           (step envOk shop0 (RunUnit 0 (ServeErr (Errorf ''address already in use'')))
             (run envOk shop0 (replicate 2 RunMain) atStart))) = 12
   \<and> Start shop0 atStart = None"
proof -
  let ?L = "run envOk shop0 (replicate 2 RunMain) atStart"
  note L = after_two_statements [of envOk shop0]
  have l: "\<not> exited ?L" "0 < length (units ?L)" "units ?L ! 0 = M112" "mainPc ?L = L117 0"
    "unitTrace ?L = []" "pageImpressionsSimulated ?L = 0"
    by (simp_all add: L)
  have R: "nat (RequestRate (Shop (cfg shop0))) = 3"
    by (simp add: shop0_def conf0_def)
  from metrics_server_failure_only_logged [OF l(1,2,3), of envOk shop0
      "Errorf ''address already in use''"] l R
  show ?thesis by simp
qed


section \<open>Properties of the chooser\<close>

lemma length_runningTotals [simp]: "length (runningTotals acc ws) = length ws"
  by (induction ws arbitrary: acc) simp_all

lemma searchIndex_less:
  assumes "C \<noteq> []" and "r < last C"
  shows "searchIndex C r < length C"
proof -
  let ?T = "takeWhile (\<lambda>c. \<not> c > r) C"
  have "?T \<noteq> C"
  proof
    assume "?T = C"
    then have "\<forall>c \<in> set C. \<not> c > r" by (simp add: takeWhile_eq_all_conv)
    moreover from assms(1) have "last C \<in> set C" by simp
    ultimately show False using assms(2) by auto
  qed
  moreover have "?T = take (length ?T) C" by (rule takeWhile_eq_take)
  ultimately have "length ?T \<noteq> length C" by (metis take_all order_refl)
  moreover have "length ?T \<le> length C" by (rule length_takeWhile_le)
  ultimately show ?thesis by (simp add: searchIndex_def)
qed

lemma NewChooser_spec_rejects:
  assumes "cs = [] \<or> (\<exists>c \<in> set cs. Weight c \<le> 0)"
  shows "\<exists>err. NewChooser_spec cs = Inl err"
  using assms by (auto simp: NewChooser_spec_def list_ex_iff)

lemma Pick_spec_total:
  assumes "NewChooser_spec cs = Inr ch" and "int r < total ch"
  shows "\<exists>c \<in> set cs. Pick_spec ch r = Some (Item c)"
proof -
  from assms(1) have ne: "cs \<noteq> []"
    and ch: "ch = \<lparr>entries = cs, cumulative = runningTotals 0 (map Weight cs),
               total = last (runningTotals 0 (map Weight cs))\<rparr>"
    by (auto simp: NewChooser_spec_def split: if_splits)
  let ?C = "runningTotals 0 (map Weight cs)"
  from ne have "?C \<noteq> []" by (cases cs) simp_all
  moreover from assms(2) ch have "int r < last ?C" by simp
  ultimately have "searchIndex ?C (int r) < length ?C" by (rule searchIndex_less)
  then have lt: "searchIndex ?C (int r) < length cs" by simp
  then have "cs ! searchIndex ?C (int r) \<in> set cs" by simp
  with lt ch show ?thesis by (auto simp: Pick_spec_def Let_def)
qed

text \<open>
  C6. On the chooser as the spec describes it, a table with no entry or with a
  non-positive weight is rejected by the constructor, and a chooser that was
  constructed answers every pick with a draw below its total by the action of one of
  its entries. In \<^verbatim>\<open>New\<close>, an error of the chooser's constructor is returned wrapped, and
  no shop with it.
\<close>

theorem chooser_construction_errors:
  "(cs = [] \<or> (\<exists>c \<in> set cs. Weight c \<le> 0) \<longrightarrow> (\<exists>err. NewChooser_spec cs = Inl err))
   \<and> (\<forall>ch r. NewChooser_spec cs = Inr ch \<and> int r < total ch \<longrightarrow>
         (\<exists>c \<in> set cs. Pick_spec ch r = Some (Item c)))
   \<and> (\<forall>t err. EvNewChooser t \<in> set (fst (New env conf)) \<and> NewChooser env t = Inl err \<longrightarrow>
         snd (New env conf) = Inl (Wrapf ''failed to create random chooser'' err))"
proof -
  have a: "cs = [] \<or> (\<exists>c \<in> set cs. Weight c \<le> 0) \<longrightarrow> (\<exists>err. NewChooser_spec cs = Inl err)"
    using NewChooser_spec_rejects by blast
  have b: "\<forall>ch r. NewChooser_spec cs = Inr ch \<and> int r < total ch \<longrightarrow>
         (\<exists>c \<in> set cs. Pick_spec ch r = Some (Item c))"
    using Pick_spec_total by blast
  have c: "\<forall>t err. EvNewChooser t \<in> set (fst (New env conf)) \<and> NewChooser env t = Inl err \<longrightarrow>
         snd (New env conf) = Inl (Wrapf ''failed to create random chooser'' err)"
  proof (intro allI impI, elim conjE)
    fix t err
    assume mem: "EvNewChooser t \<in> set (fst (New env conf))"
      and fail: "NewChooser env t = Inl err"
    from New_table(1,2) [OF mem] fail
    show "snd (New env conf) = Inl (Wrapf ''failed to create random chooser'' err)"
      by (simp add: New_finish_result)
  qed
  show ?thesis by (intro conjI a b c)
qed

theorem chooser_construction_errors_witness:
  "NewChooser_spec [] = Inl (Errorf ''no choices'')
   \<and> NewChooser_spec [\<lparr>Item = Func OrderSvc CreateOrder, Weight = 5\<rparr>,
                      \<lparr>Item = Func AddressSvc CreateAddress, Weight = 0\<rparr>]
       = Inl (Errorf ''non-positive weight'')
   \<and> NewChooser_spec choices = Inr (chooser shop0)
   \<and> int 1098 < total (chooser shop0)
   \<and> Pick_spec (chooser shop0) 1098 = Some (Func OrderSvc CreateOrder)
   \<and> EvNewChooser choices \<in> set (fst (New envFail conf0))
   \<and> NewChooser envFail choices = Inl (Errorf ''bad table'')
   \<and> snd (New envFail conf0) =
       Inl (Wrapf ''failed to create random chooser'' (Errorf ''bad table''))"
proof -
  have n: "EvNewChooser choices \<in> set (fst (New envFail conf0))"
    "NewChooser envFail choices = Inl (Errorf ''bad table'')"
    by (simp_all add: New_def New_construct_def New_initialize_def New_finish_def envOk_def
      envFail_def Let_def Initialize_spec_def WithTimeout_def Minute_def Second_def)
  have c: "NewChooser_spec choices = Inr (chooser shop0)"
    by (simp add: NewChooser_spec_def choices_def shop0_def)
  have p: "Pick_spec (chooser shop0) 1098 = Some (Func OrderSvc CreateOrder)"
    by (simp add: shop0_def Pick_spec_def searchIndex_def choices_def)
  have t: "int 1098 < total (chooser shop0)"
    by (simp add: shop0_def)
  have e: "NewChooser_spec [] = Inl (Errorf ''no choices'')"
    "NewChooser_spec [\<lparr>Item = Func OrderSvc CreateOrder, Weight = 5\<rparr>,
                      \<lparr>Item = Func AddressSvc CreateAddress, Weight = 0\<rparr>]
       = Inl (Errorf ''non-positive weight'')"
    by (simp_all add: NewChooser_spec_def)
  from chooser_construction_errors [of "[]" envFail conf0] chooser_construction_errors [of choices envFail conf0] n c p t e
  show ?thesis by simp
qed

end
